theory Spec2Isabelle
  imports Main "HOL-Library.Word"
begin

unbundle bit_operations_syntax

section \<open>JavaScript values\<close>

text \<open>
  The module under study is \<^verbatim>\<open>utils.ts\<close> (the second document of
  \<^verbatim>\<open>src/common/components/WordBookViewer.tsx\<close>): \<^verbatim>\<open>getApiKey\<close>,
  \<^verbatim>\<open>getSettings\<close>, \<^verbatim>\<open>jsonToActions\<close> and \<^verbatim>\<open>fetchSSE\<close>.

  A JavaScript string is a sequence of UTF-16 code units; a \<^verbatim>\<open>Uint8Array\<close> is a
  sequence of bytes. String literals of the source are ASCII and are written through
  \<open>ascii\<close>.
\<close>

type_synonym byte = "8 word"
type_synonym jsstring = "16 word list"

definition ascii :: "string \<Rightarrow> jsstring" where
  "ascii s = map of_char s"

definition ascii_bytes :: "string \<Rightarrow> byte list" where
  "ascii_bytes s = map of_char s"

text \<open>
  Values that \<^verbatim>\<open>JSON.parse\<close>, \<^verbatim>\<open>Response.json\<close> and the extension's storage
  produce. The numeric value of a number plays no role below. The JavaScript value
  \<^verbatim>\<open>undefined\<close> is not one of them: an expression that may be undefined has type
  \<open>json option\<close>, with \<open>None\<close> for \<^verbatim>\<open>undefined\<close>.
\<close>

datatype json =
    JNull
  | JBool bool
  | JNum int
  | JStr jsstring
  | JArr "json list"
  | JObj "(jsstring \<times> json) list"

text \<open>What a \<^verbatim>\<open>throw\<close> or a rejected promise carries.\<close>

datatype exn = SyntaxError | TypeError | Error jsstring | NetworkError

text \<open>\<^verbatim>\<open>ToBoolean\<close>: what \<^verbatim>\<open>!x\<close> and \<^verbatim>\<open>if (x)\<close> test.\<close>

fun truthy :: "json option \<Rightarrow> bool" where
  "truthy None = False"
| "truthy (Some JNull) = False"
| "truthy (Some (JBool b)) = b"
| "truthy (Some (JNum n)) = (n \<noteq> 0)"
| "truthy (Some (JStr s)) = (s \<noteq> [])"
| "truthy (Some (JArr xs)) = True"
| "truthy (Some (JObj kvs)) = True"

text \<open>\<^verbatim>\<open>!x\<close> is always a boolean, never \<^verbatim>\<open>undefined\<close>.\<close>

definition js_not :: "json option \<Rightarrow> json option" where
  "js_not v = Some (JBool (\<not> truthy v))"

text \<open>\<^verbatim>\<open>x === undefined || x === null\<close>\<close>

definition nullish :: "json option \<Rightarrow> bool" where
  "nullish v = (v = None \<or> v = Some JNull)"

section \<open>Settings: \<^verbatim>\<open>getSettings\<close> and \<^verbatim>\<open>getApiKey\<close>\<close>

definition defaultAPIURL :: jsstring where
  "defaultAPIURL = ascii ''https://api.openai.com''"

definition defaultAPIURLPath :: jsstring where
  "defaultAPIURLPath = ascii ''/v1/chat/completions''"

definition defaultProvider :: jsstring where
  "defaultProvider = ascii ''OpenAI''"

definition defaultAPIModel :: jsstring where
  "defaultAPIModel = ascii ''gpt-3.5-turbo''"

definition defaultChatContext :: bool where
  "defaultChatContext = True"

definition defaultAutoTranslate :: bool where
  "defaultAutoTranslate = False"

definition defaultTargetLanguage :: jsstring where
  "defaultTargetLanguage = ascii ''zh-Hans''"

definition defaultSourceLanguage :: jsstring where
  "defaultSourceLanguage = ascii ''en''"

definition defaultYouglishLanguage :: jsstring where
  "defaultYouglishLanguage = ascii ''en''"

definition defaultSelectInputElementsText :: bool where
  "defaultSelectInputElementsText = True"

definition defaulti18n :: jsstring where
  "defaulti18n = ascii ''en''"

text \<open>
  The object \<^verbatim>\<open>browser.storage.sync.get(keys)\<close> resolves to, and which
  \<^verbatim>\<open>getSettings\<close> then mutates and returns: property name to stored value; a
  property that is absent reads as \<^verbatim>\<open>undefined\<close>.
\<close>

type_synonym settings = "string \<rightharpoonup> json"

text \<open>\<^verbatim>\<open>if (!settings.k) { settings.k = d }\<close>\<close>

definition default_if_falsy :: "string \<Rightarrow> json \<Rightarrow> settings \<Rightarrow> settings" where
  "default_if_falsy k d s = (if \<not> truthy (s k) then s(k \<mapsto> d) else s)"

text \<open>\<^verbatim>\<open>if (settings.k === undefined || settings.k === null) { settings.k = d }\<close>\<close>

definition default_if_nullish :: "string \<Rightarrow> json \<Rightarrow> settings \<Rightarrow> settings" where
  "default_if_nullish k d s = (if s k = None \<or> s k = Some JNull then s(k \<mapsto> d) else s)"

text \<open>
  The statement for \<^verbatim>\<open>chatContext\<close>, as the source has it:
  \<^verbatim>\<open>if (!settings.chatContext === undefined || settings.autoTranslate === null)\<close>.
  The negation binds tighter than \<^verbatim>\<open>===\<close>.
\<close>

definition default_chatContext :: "settings \<Rightarrow> settings" where
  "default_chatContext s =
     (if js_not (s ''chatContext'') = None \<or> s ''autoTranslate'' = Some JNull
      then s(''chatContext'' \<mapsto> JBool defaultChatContext) else s)"

text \<open>
  \<^verbatim>\<open>getSettings\<close>: the statements in the source's order. The first argument is the
  value of \<^verbatim>\<open>isTauri()\<close>, the second the items read from storage.
\<close>

definition getSettings :: "bool \<Rightarrow> settings \<Rightarrow> settings" where
  "getSettings isTauri items =
     (let s = default_if_falsy ''apiKeys'' (JStr []) items;
          s = default_if_falsy ''apiURL'' (JStr defaultAPIURL) s;
          s = default_if_falsy ''apiURLPath'' (JStr defaultAPIURLPath) s;
          s = default_if_falsy ''apiModel'' (JStr defaultAPIModel) s;
          s = default_if_falsy ''provider'' (JStr defaultProvider) s;
          s = default_if_nullish ''autoTranslate'' (JBool defaultAutoTranslate) s;
          s = default_chatContext s;
          s = default_if_falsy ''defaultTranslateMode'' (JStr (ascii ''translate'')) s;
          s = default_if_falsy ''defaultSourceLanguage'' (JStr defaultSourceLanguage) s;
          s = default_if_falsy ''defaultTargetLanguage'' (JStr defaultTargetLanguage) s;
          s = default_if_falsy ''defaultYouglishLanguage'' (JStr defaultYouglishLanguage) s;
          s = default_if_nullish ''alwaysShowIcons'' (JBool (\<not> isTauri)) s;
          s = default_if_falsy ''i18n'' (JStr defaulti18n) s;
          s = default_if_falsy ''disableCollectingStatistics'' (JBool False) s;
          s = default_if_nullish ''selectInputElementsText''
                (JBool defaultSelectInputElementsText) s;
          s = default_if_falsy ''themeType'' (JStr (ascii ''followTheSystem'')) s
      in s)"

text \<open>\<^verbatim>\<open>String.prototype.split\<close> with a one-unit separator: never the empty list.\<close>

fun split :: "'a \<Rightarrow> 'a list \<Rightarrow> 'a list list" where
  "split sep [] = [[]]"
| "split sep (c # cs) =
     (if c = sep then [] # split sep cs
      else (case split sep cs of
              [] \<Rightarrow> [[c]]
            | p # ps \<Rightarrow> (c # p) # ps))"

text \<open>
  The code units \<^verbatim>\<open>String.prototype.trim\<close> removes: ECMAScript's WhiteSpace and
  LineTerminator.
\<close>

definition is_white_space :: "16 word \<Rightarrow> bool" where
  "is_white_space c =
     (c = 0x0009 \<or> c = 0x000A \<or> c = 0x000B \<or> c = 0x000C \<or> c = 0x000D \<or>
      c = 0x0020 \<or> c = 0x00A0 \<or> c = 0x1680 \<or> (0x2000 \<le> c \<and> c \<le> 0x200A) \<or>
      c = 0x2028 \<or> c = 0x2029 \<or> c = 0x202F \<or> c = 0x205F \<or> c = 0x3000 \<or>
      c = 0xFEFF)"

definition trim :: "jsstring \<Rightarrow> jsstring" where
  "trim s = rev (dropWhile is_white_space (rev (dropWhile is_white_space s)))"

text \<open>\<^verbatim>\<open>xs[i]\<close>: \<^verbatim>\<open>undefined\<close> out of range, never an exception.\<close>

definition index :: "'a list \<Rightarrow> nat \<Rightarrow> 'a option" where
  "index xs i = (if i < length xs then Some (xs ! i) else None)"

text \<open>
  \<^verbatim>\<open>getApiKey\<close>. The argument \<open>r\<close> is the value of
  \<^verbatim>\<open>Math.floor(Math.random() * apiKeys.length)\<close>; no bound on it is assumed.
  \<^verbatim>\<open>.split\<close> exists on strings only: on any other value that is neither
  \<^verbatim>\<open>undefined\<close> nor \<^verbatim>\<open>null\<close> the call throws a TypeError.
\<close>

definition getApiKey :: "bool \<Rightarrow> settings \<Rightarrow> nat \<Rightarrow> exn + jsstring" where
  "getApiKey isTauri items r =
     (let settings = getSettings isTauri items;
          v = (if nullish (settings ''apiKeys'') then Some (JStr []) else settings ''apiKeys'')
      in case v of
           Some (JStr s) \<Rightarrow>
             (let apiKeys = map trim (split 0x2C s)
              in case index apiKeys r of
                   None \<Rightarrow> Inr []
                 | Some k \<Rightarrow> Inr k)
         | _ \<Rightarrow> Inl TypeError)"

section \<open>Import of actions: \<^verbatim>\<open>jsonToActions\<close>\<close>

text \<open>
  \<^verbatim>\<open>parsedData.slice(0, 5)\<close>, evaluated for the log line before the array check:
  strings and arrays have \<^verbatim>\<open>slice\<close>; reading it from \<^verbatim>\<open>null\<close> throws, and on a
  number, a boolean or an object parsed from JSON it is not a function.
\<close>

fun slice_for_log :: "json \<Rightarrow> exn + unit" where
  "slice_for_log (JStr s) = Inr ()"
| "slice_for_log (JArr xs) = Inr ()"
| "slice_for_log v = Inl TypeError"

text \<open>
  The body of the \<^verbatim>\<open>try\<close> block. \<open>JSON_parse\<close> is the platform's
  \<^verbatim>\<open>JSON.parse\<close>; \<open>file_text\<close> is the outcome of \<^verbatim>\<open>await file.text()\<close>.
\<close>

definition jsonToActions_try ::
  "(jsstring \<Rightarrow> exn + json) \<Rightarrow> exn + jsstring \<Rightarrow> exn + json list" where
  "jsonToActions_try JSON_parse file_text =
     (case file_text of
        Inl e \<Rightarrow> Inl e
      | Inr fileContent \<Rightarrow>
          (case JSON_parse fileContent of
             Inl e \<Rightarrow> Inl e
           | Inr parsedData \<Rightarrow>
               (case slice_for_log parsedData of
                  Inl e \<Rightarrow> Inl e
                | Inr u \<Rightarrow>
                    (case parsedData of
                       JArr actions \<Rightarrow> Inr actions
                     | _ \<Rightarrow> Inl (Error (ascii
                         ''Invalid file format: Expected an array of actions''))))))"

text \<open>The \<^verbatim>\<open>catch\<close> clause logs the error and returns the empty array.\<close>

definition jsonToActions ::
  "(jsstring \<Rightarrow> exn + json) \<Rightarrow> exn + jsstring \<Rightarrow> exn + json list" where
  "jsonToActions JSON_parse file_text =
     (case jsonToActions_try JSON_parse file_text of
        Inl error \<Rightarrow> Inr []
      | Inr parsedData \<Rightarrow> Inr parsedData)"

section \<open>\<^verbatim>\<open>new TextDecoder().decode(value)\<close>\<close>

text \<open>
  The platform's UTF-8 decoder, after the WHATWG Encoding Standard: the decoder's
  state, its handler for one byte, the replacement character U+FFFD for every error
  (the default, non-fatal mode), the end of the input flushing an unfinished sequence as
  one more U+FFFD (the call has no \<^verbatim>\<open>stream\<close> option), and one leading U+FEFF
  dropped (the default \<^verbatim>\<open>ignoreBOM: false\<close>).
\<close>

record utf8_state =
  code_point :: nat
  bytes_seen :: nat
  bytes_needed :: nat
  lower_boundary :: byte
  upper_boundary :: byte

definition utf8_init :: utf8_state where
  "utf8_init = \<lparr>code_point = 0, bytes_seen = 0, bytes_needed = 0,
     lower_boundary = 0x80, upper_boundary = 0xBF\<rparr>"

text \<open>The handler when no bytes are needed: \<open>b\<close> starts a sequence.\<close>

definition utf8_lead :: "byte \<Rightarrow> nat list \<times> utf8_state" where
  "utf8_lead b =
     (if b \<le> 0x7F then ([unat b], utf8_init)
      else if 0xC2 \<le> b \<and> b \<le> 0xDF then
        ([], utf8_init\<lparr>bytes_needed := 1, code_point := unat (b AND 0x1F)\<rparr>)
      else if 0xE0 \<le> b \<and> b \<le> 0xEF then
        ([], utf8_init\<lparr>lower_boundary := (if b = 0xE0 then 0xA0 else 0x80),
                        upper_boundary := (if b = 0xED then 0x9F else 0xBF),
                        bytes_needed := 2, code_point := unat (b AND 0xF)\<rparr>)
      else if 0xF0 \<le> b \<and> b \<le> 0xF4 then
        ([], utf8_init\<lparr>lower_boundary := (if b = 0xF0 then 0x90 else 0x80),
                        upper_boundary := (if b = 0xF4 then 0x8F else 0xBF),
                        bytes_needed := 3, code_point := unat (b AND 0x7)\<rparr>)
      else ([0xFFFD], utf8_init))"

text \<open>
  The handler for one byte. A byte outside the expected range ends the sequence with an
  error and is then read again as the start of the next one.
\<close>

definition utf8_step :: "utf8_state \<Rightarrow> byte \<Rightarrow> nat list \<times> utf8_state" where
  "utf8_step st b =
     (if bytes_needed st = 0 then utf8_lead b
      else if b < lower_boundary st \<or> upper_boundary st < b then
        (case utf8_lead b of (out, st') \<Rightarrow> (0xFFFD # out, st'))
      else
        (let cp = push_bit 6 (code_point st) OR unat (b AND 0x3F);
             seen = bytes_seen st + 1
         in if seen \<noteq> bytes_needed st
            then ([], st\<lparr>lower_boundary := 0x80, upper_boundary := 0xBF,
                           code_point := cp, bytes_seen := seen\<rparr>)
            else ([cp], utf8_init)))"

fun utf8_run :: "utf8_state \<Rightarrow> byte list \<Rightarrow> nat list \<times> utf8_state" where
  "utf8_run st [] = ([], st)"
| "utf8_run st (b # bs) =
     (case utf8_step st b of (out1, st1) \<Rightarrow>
        (case utf8_run st1 bs of (out2, st2) \<Rightarrow> (out1 @ out2, st2)))"

text \<open>The code points of one call of \<^verbatim>\<open>decode\<close>, before the byte order mark is dropped.\<close>

definition utf8_decode :: "byte list \<Rightarrow> nat list" where
  "utf8_decode bs =
     (case utf8_run utf8_init bs of (out, st) \<Rightarrow>
        out @ (if bytes_needed st \<noteq> 0 then [0xFFFD] else []))"

definition strip_bom :: "nat list \<Rightarrow> nat list" where
  "strip_bom cps =
     (case cps of [] \<Rightarrow> [] | c # rest \<Rightarrow> if c = 0xFEFF then rest else cps)"

text \<open>A code point as UTF-16: one unit, or a surrogate pair.\<close>

definition utf16_units :: "nat \<Rightarrow> jsstring" where
  "utf16_units cp =
     (if cp < 0x10000 then [of_nat cp]
      else [of_nat (0xD800 + (cp - 0x10000) div 0x400),
            of_nat (0xDC00 + (cp - 0x10000) mod 0x400)])"

definition TextDecoder_decode :: "byte list \<Rightarrow> jsstring" where
  "TextDecoder_decode bs = concat (map utf16_units (strip_bom (utf8_decode bs)))"

section \<open>The event-stream grammar decoder\<close>

text \<open>
  \<^verbatim>\<open>createParser\<close> comes from the package \<^verbatim>\<open>eventsource-parser\<close>, which is not
  part of the module. \<^verbatim>\<open>fetchSSE\<close> uses two things of it: the parser object's
  \<^verbatim>\<open>feed\<close>, and the events \<^verbatim>\<open>feed\<close> hands to the callback, of which it reads
  \<^verbatim>\<open>type\<close> and \<^verbatim>\<open>data\<close>. So the decoder is a parameter of the model: a starting
  state and a \<^verbatim>\<open>feed\<close> that, from a state and a string, calls back with some events
  in order and then either returns, leaving a new state, or throws.
\<close>

datatype parse_event =
    ParsedEvent jsstring
  | ReconnectInterval nat

record 's parser =
  initial :: 's
  feed :: "'s \<Rightarrow> jsstring \<Rightarrow> parse_event list \<times> (exn + 's)"

text \<open>Two calls of \<^verbatim>\<open>feed\<close> in a row; the second does not happen when the first throws.\<close>

definition feed_twice ::
  "'s parser \<Rightarrow> 's \<Rightarrow> jsstring \<Rightarrow> jsstring \<Rightarrow> parse_event list \<times> (exn + 's)" where
  "feed_twice P st a b =
     (case feed P st a of
        (evs1, Inl e) \<Rightarrow> (evs1, Inl e)
      | (evs1, Inr st1) \<Rightarrow> (case feed P st1 b of (evs2, r) \<Rightarrow> (evs1 @ evs2, r)))"

text \<open>
  The decoder's contract in the specification: it \<^emph>\<open>buffers partial lines across chunk
  boundaries\<close>. Feeding a text in two pieces is feeding it in one, and feeding the empty
  string does nothing.
\<close>

definition buffers_partial_lines :: "'s parser \<Rightarrow> bool" where
  "buffers_partial_lines P =
     (\<forall>st a b. feed P st [] = ([], Inr st) \<and> feed P st (a @ b) = feed_twice P st a b)"

text \<open>
  Modelled from the spec: the event-stream grammar decoder itself (package
  \<^verbatim>\<open>eventsource-parser\<close>, absent from the sources), as the specification's glossary
  and interface section describe it: lines end with LF, CR or CR LF; a line
  \<^verbatim>\<open>data:\<close> adds its value and a line feed to the data of the event under
  construction, one space after the colon being dropped; a blank line completes the
  event, which is reported with its data less the final line feed when there is any
  data; a \<^verbatim>\<open>retry:\<close> line of digits is reported as a reconnect interval, which is
  not an event of type \<^verbatim>\<open>event\<close>; other lines are ignored; a byte order mark at the
  very start of the stream is skipped. An unfinished line waits in the state for the
  next call.
\<close>

record sse_state =
  at_start :: bool
  after_cr :: bool
  line :: jsstring
  data_buffer :: jsstring

text \<open>Modelled from the spec: the decoder before its first call.\<close>

definition sse_init :: sse_state where
  "sse_init = \<lparr>at_start = True, after_cr = False, line = [], data_buffer = []\<rparr>"

text \<open>Modelled from the spec: the field name and the value of a line, split at the first
  colon; one space after the colon is not part of the value.\<close>

definition split_field :: "jsstring \<Rightarrow> jsstring \<times> jsstring" where
  "split_field l =
     (let name = takeWhile (\<lambda>c. c \<noteq> 0x3A) l
      in case dropWhile (\<lambda>c. c \<noteq> 0x3A) l of
           [] \<Rightarrow> (name, [])
         | colon # v \<Rightarrow>
             (name, case v of [] \<Rightarrow> [] | sp # v' \<Rightarrow> if sp = 0x20 then v' else v))"

text \<open>Modelled from the spec: the digits of a \<^verbatim>\<open>retry:\<close> value.\<close>

definition is_digit :: "16 word \<Rightarrow> bool" where
  "is_digit c = (0x30 \<le> c \<and> c \<le> 0x39)"

text \<open>Modelled from the spec: the number a string of digits denotes.\<close>

definition decimal :: "jsstring \<Rightarrow> nat" where
  "decimal v = foldl (\<lambda>n c. 10 * n + unat (c - 0x30)) 0 v"

text \<open>Modelled from the spec: what the end of a line does: a blank line completes the event
  under construction, a \<^verbatim>\<open>data:\<close> line adds to it.\<close>

definition end_of_line :: "sse_state \<Rightarrow> parse_event list \<times> sse_state" where
  "end_of_line st =
     (let l = line st; st0 = st\<lparr>line := []\<rparr>
      in if l = [] then
           (if data_buffer st0 = [] then ([], st0)
            else ([ParsedEvent (butlast (data_buffer st0))], st0\<lparr>data_buffer := []\<rparr>))
         else
           (case split_field l of
              (name, v) \<Rightarrow>
                if name = ascii ''data'' then
                  ([], st0\<lparr>data_buffer := data_buffer st0 @ v @ [0x0A]\<rparr>)
                else if name = ascii ''retry'' \<and> v \<noteq> [] \<and> list_all is_digit v then
                  ([ReconnectInterval (decimal v)], st0)
                else ([], st0)))"

text \<open>Modelled from the spec: the decoder reading one code unit.\<close>

definition sse_unit :: "sse_state \<Rightarrow> 16 word \<Rightarrow> parse_event list \<times> sse_state" where
  "sse_unit st c =
     (if at_start st \<and> c = 0xFEFF then ([], st\<lparr>at_start := False\<rparr>)
      else if c = 0x0D then
        (case end_of_line st of
           (evs, st') \<Rightarrow> (evs, st'\<lparr>at_start := False, after_cr := True\<rparr>))
      else if c = 0x0A then
        (if after_cr st then ([], st\<lparr>at_start := False, after_cr := False\<rparr>)
         else (case end_of_line st of (evs, st') \<Rightarrow> (evs, st'\<lparr>at_start := False\<rparr>)))
      else ([], st\<lparr>at_start := False, after_cr := False, line := line st @ [c]\<rparr>))"

text \<open>Modelled from the spec: the decoder reading a string, unit by unit.\<close>

fun sse_units :: "sse_state \<Rightarrow> jsstring \<Rightarrow> parse_event list \<times> sse_state" where
  "sse_units st [] = ([], st)"
| "sse_units st (c # cs) =
     (case sse_unit st c of (evs1, st1) \<Rightarrow>
        (case sse_units st1 cs of (evs2, st2) \<Rightarrow> (evs1 @ evs2, st2)))"

text \<open>Modelled from the spec: the parser object; its \<^verbatim>\<open>feed\<close> does not throw.\<close>

definition sse_parser :: "sse_state parser" where
  "sse_parser =
     \<lparr>initial = sse_init,
      feed = (\<lambda>st s. case sse_units st s of (evs, st') \<Rightarrow> (evs, Inr st'))\<rparr>"

section \<open>\<^verbatim>\<open>fetchSSE\<close>\<close>

text \<open>
  What an invocation does that its caller can observe: the calls of the three callbacks,
  and the acquisition and release of the body's reader, in order.
\<close>

datatype effect =
    OnStatusCode nat
  | OnMessage jsstring
  | OnError json
  | GetReader
  | ReleaseLock

text \<open>
  One \<^verbatim>\<open>await reader.read()\<close> before the one that reports \<^verbatim>\<open>done\<close>: it
  resolves with a chunk, or rejects.
\<close>

datatype read_result =
    Chunk "byte list"
  | ReadError exn

text \<open>
  The response the fetcher resolves to: its status, the outcome of
  \<^verbatim>\<open>await resp.json()\<close>, and \<^verbatim>\<open>resp.body\<close>, which is \<^verbatim>\<open>null\<close> or a stream, given
  by the outcomes of the reads that precede the read reporting \<^verbatim>\<open>done\<close>. The
  streams covered are those that end or fail after finitely many reads; on a stream that
  does neither, the loop has no exit and the invocation stays pending.
\<close>

record response =
  status :: nat
  json_result :: "exn + json"
  body :: "read_result list option"

text \<open>
  The callback given to \<^verbatim>\<open>createParser\<close>:
  \<^verbatim>\<open>if (event.type === 'event') { onMessage(event.data) }\<close>
\<close>

fun on_parse :: "parse_event \<Rightarrow> effect list" where
  "on_parse (ParsedEvent d) = [OnMessage d]"
| "on_parse (ReconnectInterval n) = []"

text \<open>
  The \<^verbatim>\<open>while (true)\<close> loop inside \<^verbatim>\<open>try\<close>: it ends by \<^verbatim>\<open>break\<close> when the
  reads are used up (\<^verbatim>\<open>done\<close>), or by an exception of \<^verbatim>\<open>reader.read()\<close> or of
  \<^verbatim>\<open>parser.feed(str)\<close>.
\<close>

fun read_loop :: "'s parser \<Rightarrow> 's \<Rightarrow> read_result list \<Rightarrow> effect list \<times> (exn + unit)" where
  "read_loop P st [] = ([], Inr ())"
| "read_loop P st (ReadError e # reads) = ([], Inl e)"
| "read_loop P st (Chunk v # reads) =
     (let str = TextDecoder_decode v
      in case feed P st str of
           (evs, Inl e) \<Rightarrow> (concat (map on_parse evs), Inl e)
         | (evs, Inr st') \<Rightarrow>
             (case read_loop P st' reads of
                (calls, r) \<Rightarrow> (concat (map on_parse evs) @ calls, r)))"

text \<open>
  \<^verbatim>\<open>fetchSSE\<close>. \<open>onStatusCode_given\<close> says whether the optional callback is among
  the options (\<^verbatim>\<open>onStatusCode?.(resp.status)\<close>); \<open>fetched\<close> is the outcome of
  \<^verbatim>\<open>await fetcher(input, fetchOptions)\<close>. The result is the effects in order and how
  the invocation ends: \<open>Inr ()\<close> when the promise resolves, \<open>Inl e\<close> when it rejects
  with \<open>e\<close>. \<^verbatim>\<open>resp.body!.getReader()\<close> on a \<^verbatim>\<open>null\<close> body throws before the
  \<^verbatim>\<open>try\<close>; the \<^verbatim>\<open>finally\<close> clause releases the lock however the loop ends.
  The callbacks \<^verbatim>\<open>onStatusCode\<close> and \<^verbatim>\<open>onError\<close> are taken to return; an
  \<^verbatim>\<open>onMessage\<close> that throws makes \<^verbatim>\<open>feed\<close> throw, which the decoder's outcome
  covers.
\<close>

definition fetchSSE ::
  "'s parser \<Rightarrow> bool \<Rightarrow> exn + response \<Rightarrow> effect list \<times> (exn + unit)" where
  "fetchSSE P onStatusCode_given fetched =
     (case fetched of
        Inl e \<Rightarrow> ([], Inl e)
      | Inr resp \<Rightarrow>
          (let statusCalls = (if onStatusCode_given then [OnStatusCode (status resp)] else [])
           in if status resp \<noteq> 200 then
                (case json_result resp of
                   Inl e \<Rightarrow> (statusCalls, Inl e)
                 | Inr j \<Rightarrow> (statusCalls @ [OnError j], Inr ()))
              else
                (case body resp of
                   None \<Rightarrow> (statusCalls, Inl TypeError)
                 | Some reads \<Rightarrow>
                     (case read_loop P (initial P) reads of
                        (calls, r) \<Rightarrow>
                          (statusCalls @ [GetReader] @ calls @ [ReleaseLock], r)))))"

text \<open>Observations on the effects of one invocation.\<close>

fun is_onMessage :: "effect \<Rightarrow> bool" where
  "is_onMessage (OnMessage d) = True"
| "is_onMessage x = False"

fun is_onError :: "effect \<Rightarrow> bool" where
  "is_onError (OnError j) = True"
| "is_onError x = False"

fun is_onStatusCode :: "effect \<Rightarrow> bool" where
  "is_onStatusCode (OnStatusCode n) = True"
| "is_onStatusCode x = False"

text \<open>
  The two outcomes of an invocation that the specification's invariant names: the
  stream was read to its end, the lock released and the invocation returned; and
  \<^verbatim>\<open>onError\<close> was called exactly once. Neither says anything of the other.
\<close>

definition messages_then_completion :: "effect list \<times> (exn + unit) \<Rightarrow> bool" where
  "messages_then_completion res =
     (snd res = Inr () \<and> ReleaseLock \<in> set (fst res))"

definition exactly_one_onError :: "effect list \<times> (exn + unit) \<Rightarrow> bool" where
  "exactly_one_onError res = (length (filter is_onError (fst res)) = 1)"

text \<open>
  The text of one event whose payload is \<open>p\<close>, as the specification's example writes
  it: \<^verbatim>\<open>data: \<close>, the payload, and the blank-line terminator. A payload or an
  unfinished line holds no line end.
\<close>

definition event_text :: "jsstring \<Rightarrow> jsstring" where
  "event_text p = ascii ''data: '' @ p @ [0x0A, 0x0A]"

definition not_eol :: "16 word \<Rightarrow> bool" where
  "not_eol c = (c \<noteq> 0x0A \<and> c \<noteq> 0x0D)"

text \<open>
  A chunk that is made of whole characters: decoding it leaves the decoder in its
  initial state, no sequence unfinished, and it does not begin with a byte order mark.
\<close>

definition whole_characters :: "byte list \<Rightarrow> bool" where
  "whole_characters c =
     (snd (utf8_run utf8_init c) = utf8_init
      \<and> take 1 (fst (utf8_run utf8_init c)) \<noteq> [0xFEFF])"

section \<open>Evaluation\<close>

lemmas decode_defs = TextDecoder_decode_def utf8_decode_def utf8_step_def utf8_lead_def
  utf8_init_def strip_bom_def utf16_units_def ascii_bytes_def ascii_def

lemmas sse_defs = sse_parser_def sse_init_def sse_unit_def end_of_line_def split_field_def
  Let_def

section \<open>\<^verbatim>\<open>jsonToActions\<close> never throws\<close>

text \<open>
  C8. \<^verbatim>\<open>jsonToActions\<close> never throws, whatever the file: it returns the parsed array
  when the file's content is valid JSON that encodes an array, and the empty array when
  the content is not valid JSON or the parsed value is not an array.
\<close>

theorem jsonToActions_never_throws:
  "(\<exists>actions. jsonToActions JSON_parse file_text = Inr actions)
   \<and> jsonToActions JSON_parse (Inr fileContent) =
       Inr (case JSON_parse fileContent of
              Inr (JArr actions) \<Rightarrow> actions
            | _ \<Rightarrow> [])"
  by (simp add: jsonToActions_def jsonToActions_try_def split: sum.splits json.splits)

theorem jsonToActions_never_throws_witness:
  "jsonToActions (\<lambda>s. if s = ascii ''[]'' then Inr (JArr []) else Inr (JObj []))
     (Inr (ascii ''{}'')) = Inr []"
  using jsonToActions_never_throws
    [of "\<lambda>s. if s = ascii ''[]'' then Inr (JArr []) else Inr (JObj [])" "Inr (ascii ''{}'')"
      "ascii ''{}''"]
  by (simp add: ascii_def)

section \<open>\<^verbatim>\<open>getSettings\<close>\<close>

lemma default_if_falsy_apply:
  "default_if_falsy k d s k' =
     (if k' = k then (if truthy (s k) then s k else Some d) else s k')"
  by (simp add: default_if_falsy_def)

lemma default_if_nullish_apply:
  "default_if_nullish k d s k' =
     (if k' = k then (if nullish (s k) then Some d else s k) else s k')"
  by (simp add: default_if_nullish_def nullish_def)

lemma default_chatContext_apply:
  "default_chatContext s k' =
     (if k' = ''chatContext'' \<and> s ''autoTranslate'' = Some JNull
      then Some (JBool defaultChatContext) else s k')"
  by (simp add: default_chatContext_def js_not_def)

lemmas getSettings_lookup = getSettings_def Let_def default_if_falsy_apply
  default_if_nullish_apply default_chatContext_apply

text \<open>
  By the time the statement for \<^verbatim>\<open>chatContext\<close> runs, \<^verbatim>\<open>autoTranslate\<close> has been
  given its default and is not \<^verbatim>\<open>null\<close> any more, so the stored value of
  \<^verbatim>\<open>chatContext\<close> is returned as it is, whatever the storage holds.
\<close>

lemma getSettings_chatContext_unchanged:
  "getSettings isTauri items ''chatContext'' = items ''chatContext''"
  by (simp add: getSettings_lookup nullish_def)

lemma getSettings_apiKeys:
  "getSettings isTauri items ''apiKeys'' =
     (if truthy (items ''apiKeys'') then items ''apiKeys'' else Some (JStr []))"
  by (simp add: getSettings_lookup)

lemma getSettings_apiURL:
  "getSettings isTauri items ''apiURL'' =
     (if truthy (items ''apiURL'') then items ''apiURL'' else Some (JStr defaultAPIURL))"
  by (simp add: getSettings_lookup)

lemma getSettings_apiModel:
  "getSettings isTauri items ''apiModel'' =
     (if truthy (items ''apiModel'') then items ''apiModel'' else Some (JStr defaultAPIModel))"
  by (simp add: getSettings_lookup)

lemma getSettings_provider:
  "getSettings isTauri items ''provider'' =
     (if truthy (items ''provider'') then items ''provider'' else Some (JStr defaultProvider))"
  by (simp add: getSettings_lookup)

text \<open>
  C9. When the stored settings have no \<^verbatim>\<open>chatContext\<close> (and \<^verbatim>\<open>autoTranslate\<close> is
  not \<^verbatim>\<open>null\<close>), \<^verbatim>\<open>getSettings\<close> returns them with \<^verbatim>\<open>chatContext\<close> still
  undefined: its default is not applied, while an absent \<^verbatim>\<open>apiURL\<close>,
  \<^verbatim>\<open>apiModel\<close> or \<^verbatim>\<open>provider\<close> gets its default.
\<close>

theorem getSettings_chatContext_stays_undefined:
  assumes "items ''chatContext'' = None" and "items ''autoTranslate'' \<noteq> Some JNull"
  shows "getSettings isTauri items ''chatContext'' = None
       \<and> (items ''apiURL'' = None \<longrightarrow>
            getSettings isTauri items ''apiURL'' = Some (JStr defaultAPIURL))
       \<and> (items ''apiModel'' = None \<longrightarrow>
            getSettings isTauri items ''apiModel'' = Some (JStr defaultAPIModel))
       \<and> (items ''provider'' = None \<longrightarrow>
            getSettings isTauri items ''provider'' = Some (JStr defaultProvider))"
  using assms
  by (simp add: getSettings_chatContext_unchanged getSettings_apiURL getSettings_apiModel
      getSettings_provider)

theorem getSettings_chatContext_stays_undefined_witness:
  "[''autoTranslate'' \<mapsto> JBool True] ''chatContext'' = None
   \<and> [''autoTranslate'' \<mapsto> JBool True] ''autoTranslate'' \<noteq> Some JNull
   \<and> [''autoTranslate'' \<mapsto> JBool True] ''apiURL'' = None
   \<and> getSettings False [''autoTranslate'' \<mapsto> JBool True] ''chatContext'' = None
   \<and> getSettings False [''autoTranslate'' \<mapsto> JBool True] ''apiURL''
       = Some (JStr defaultAPIURL)"
  using getSettings_chatContext_stays_undefined
    [of "[''autoTranslate'' \<mapsto> JBool True]" False]
  by simp

section \<open>\<^verbatim>\<open>getApiKey\<close>\<close>

lemma split_not_empty: "split sep s \<noteq> []"
  by (induction s) (simp_all split: list.splits)

lemma split_no_separator: "p \<in> set (split sep s) \<Longrightarrow> sep \<notin> set p"
  by (induction s arbitrary: p) (auto split: if_splits list.splits)

lemma split_rejoin: "concat (map (\<lambda>p. p @ [sep]) (split sep s)) = s @ [sep]"
  by (induction s) (auto split: list.splits)

lemma trim_no_outer_white_space:
  "trim s = [] \<or> (\<not> is_white_space (hd (trim s)) \<and> \<not> is_white_space (last (trim s)))"
proof -
  let ?d = "dropWhile is_white_space s"
  let ?r = "dropWhile is_white_space (rev ?d)"
  show ?thesis
  proof (cases "?r = []")
    case True
    have "trim s = rev ?r" by (simp only: trim_def)
    also have "\<dots> = []" by (simp only: True rev.simps)
    finally show ?thesis by (rule disjI1)
  next
    case False
    then have l: "\<not> is_white_space (hd ?r)" by (rule hd_dropWhile)
    have dne: "?d \<noteq> []"
    proof
      assume d: "?d = []"
      have "?r = []" unfolding d by simp
      with False show False by blast
    qed
    then have h: "\<not> is_white_space (hd ?d)" by (rule hd_dropWhile)
    have la: "last (rev ?r) = hd ?r" using False by (simp add: last_rev)
    have "hd (rev ?r) = hd ?d"
    proof -
      have "rev (rev ?d) = rev ?r @ rev (takeWhile is_white_space (rev ?d))"
        by (metis rev_append takeWhile_dropWhile_id)
      then have "?d = rev ?r @ rev (takeWhile is_white_space (rev ?d))" by simp
      with False show ?thesis by (metis hd_append2 rev_is_Nil_conv)
    qed
    with h l la False show ?thesis by (simp add: trim_def)
  qed
qed

text \<open>
  C10. For settings whose \<^verbatim>\<open>apiKeys\<close> is a string \<open>s\<close> (or is absent or another
  falsy value, which \<^verbatim>\<open>getSettings\<close> replaces by the empty string) and for every
  value \<open>r\<close> of the random index, \<^verbatim>\<open>getApiKey\<close> returns the empty string or one
  of the entries of \<open>s\<close> split on commas and trimmed; when \<open>s\<close> is empty it returns
  the empty string.
\<close>

theorem getApiKey_returns_entry:
  assumes "items ''apiKeys'' = Some (JStr s) \<or> (\<not> truthy (items ''apiKeys'') \<and> s = [])"
  shows "\<exists>k. getApiKey isTauri items r = Inr k
           \<and> (k = [] \<or> k \<in> set (map trim (split 0x2C s)))
           \<and> (s = [] \<longrightarrow> k = [])"
proof -
  have v: "getSettings isTauri items ''apiKeys'' = Some (JStr s)"
    using assms by (auto simp: getSettings_apiKeys)
  show ?thesis
  proof (cases "r < length (map trim (split 0x2C s))")
    case True
    then have "getApiKey isTauri items r = Inr (map trim (split 0x2C s) ! r)"
      by (simp add: getApiKey_def v nullish_def index_def Let_def)
    moreover have "map trim (split 0x2C s) ! r \<in> set (map trim (split 0x2C s))"
      using True by (rule nth_mem)
    moreover have "s = [] \<longrightarrow> map trim (split 0x2C s) ! r = []"
      using True by (auto simp: trim_def)
    ultimately show ?thesis by blast
  next
    case False
    then have "getApiKey isTauri items r = Inr []"
      by (simp add: getApiKey_def v nullish_def index_def Let_def)
    then show ?thesis by simp
  qed
qed

theorem getApiKey_returns_entry_witness:
  "[''apiKeys'' \<mapsto> JStr (ascii ''sk-a, sk-b'')] ''apiKeys''
     = Some (JStr (ascii ''sk-a, sk-b''))
   \<and> getApiKey False [''apiKeys'' \<mapsto> JStr (ascii ''sk-a, sk-b'')] 1 = Inr (ascii ''sk-b'')
   \<and> ascii ''sk-b'' \<in> set (map trim (split 0x2C (ascii ''sk-a, sk-b'')))"
proof -
  have a: "[''apiKeys'' \<mapsto> JStr (ascii ''sk-a, sk-b'')] ''apiKeys''
      = Some (JStr (ascii ''sk-a, sk-b''))"
    by simp
  have b: "getApiKey False [''apiKeys'' \<mapsto> JStr (ascii ''sk-a, sk-b'')] 1
      = Inr (ascii ''sk-b'')"
    by (simp add: getApiKey_def getSettings_apiKeys nullish_def index_def Let_def ascii_def
        trim_def is_white_space_def)
  have c: "ascii ''sk-b'' \<noteq> []" by (simp add: ascii_def)
  from getApiKey_returns_entry[of "[''apiKeys'' \<mapsto> JStr (ascii ''sk-a, sk-b'')]"
      "ascii ''sk-a, sk-b''" False 1] a b c
  show ?thesis by auto
qed

section \<open>\<^verbatim>\<open>fetchSSE\<close>: the callbacks and the reader's lock\<close>

lemma on_parse_only_messages: "list_all is_onMessage (concat (map on_parse evs))"
proof (induction evs)
  case Nil
  show ?case by simp
next
  case (Cons x xs)
  then show ?case by (cases x) simp_all
qed

text \<open>The loop calls no callback but \<^verbatim>\<open>onMessage\<close>, and does not touch the lock.\<close>

lemma read_loop_only_messages:
  "list_all is_onMessage (fst (read_loop P st reads))"
proof (induction P st reads rule: read_loop.induct)
  case (1 P st)
  show ?case by simp
next
  case (2 P st e reads)
  show ?case by simp
next
  case (3 P st v reads)
  show ?case
  proof (cases "feed P st (TextDecoder_decode v)")
    case (Pair evs r)
    show ?thesis
    proof (cases r)
      case (Inl e)
      with Pair on_parse_only_messages[of evs] show ?thesis by simp
    next
      case (Inr st')
      with Pair on_parse_only_messages[of evs] "3.IH"[OF refl Pair[symmetric] Inr]
      show ?thesis by (auto split: prod.splits)
    qed
  qed
qed

lemma only_messages_filter:
  assumes "list_all is_onMessage t"
  shows "filter is_onError t = []" and "filter is_onStatusCode t = []"
    and "GetReader \<notin> set t" and "ReleaseLock \<notin> set t"
proof -
  have a: "is_onMessage x \<Longrightarrow>
      \<not> is_onError x \<and> \<not> is_onStatusCode x \<and> x \<noteq> GetReader \<and> x \<noteq> ReleaseLock" for x
    by (cases x) simp_all
  from assms a show "filter is_onError t = []" by (induction t) auto
  from assms a show "filter is_onStatusCode t = []" by (induction t) auto
  from assms a show "GetReader \<notin> set t" by (induction t) auto
  from assms a show "ReleaseLock \<notin> set t" by (induction t) auto
qed

text \<open>An invocation that reaches the loop: the reader is acquired, the loop runs, the
  lock is released, and the invocation ends as the loop did.\<close>

lemma fetchSSE_success_shape:
  assumes "status resp = 200" and "body resp = Some reads"
  shows "\<exists>calls. fetchSSE P g (Inr resp) =
            ((if g then [OnStatusCode 200] else []) @ [GetReader] @ calls @ [ReleaseLock],
             snd (read_loop P (initial P) reads))
          \<and> list_all is_onMessage calls"
proof -
  obtain calls r where rl: "read_loop P (initial P) reads = (calls, r)"
    by (cases "read_loop P (initial P) reads")
  have "list_all is_onMessage calls"
    using read_loop_only_messages[of P "initial P" reads] rl by simp
  with assms rl show ?thesis by (simp add: fetchSSE_def)
qed

text \<open>
  C2, as amended. The specification's invariant reads: in every invocation exactly one
  of the two outcomes occurs. An invocation that fails has neither: below, a status 429 whose body
  is not JSON ends with the parse error and no call of \<^verbatim>\<open>onError\<close>. What holds:
  in every invocation that returns, exactly one of the two occurs; and in every
  invocation, returning or failing, \<^verbatim>\<open>onMessage\<close> and \<^verbatim>\<open>onError\<close> are never both
  called.
\<close>

theorem fetchSSE_messages_or_error:
  "(snd (fetchSSE P g fetched) = Inr () \<longrightarrow>
      (messages_then_completion (fetchSSE P g fetched)
         \<and> \<not> exactly_one_onError (fetchSSE P g fetched))
      \<or> (exactly_one_onError (fetchSSE P g fetched)
         \<and> \<not> messages_then_completion (fetchSSE P g fetched)))
   \<and> \<not> (filter is_onMessage (fst (fetchSSE P g fetched)) \<noteq> []
        \<and> filter is_onError (fst (fetchSSE P g fetched)) \<noteq> [])"
proof (cases fetched)
  case (Inl e)
  then show ?thesis by (simp add: fetchSSE_def)
next
  case (Inr resp)
  show ?thesis
  proof (cases "status resp = 200")
    case False
    with Inr show ?thesis
      by (cases "json_result resp")
        (simp_all add: fetchSSE_def messages_then_completion_def exactly_one_onError_def)
  next
    case True
    show ?thesis
    proof (cases "body resp")
      case None
      with True Inr show ?thesis by (simp add: fetchSSE_def)
    next
      case (Some reads)
      from fetchSSE_success_shape[OF True Some, of P g] obtain calls where
        eq: "fetchSSE P g (Inr resp) =
            ((if g then [OnStatusCode 200] else []) @ [GetReader] @ calls @ [ReleaseLock],
             snd (read_loop P (initial P) reads))"
        and m: "list_all is_onMessage calls" by blast
      from m have "filter is_onError calls = []" by (rule only_messages_filter)
      with Inr eq show ?thesis
        by (simp add: messages_then_completion_def exactly_one_onError_def)
    qed
  qed
qed

theorem fetchSSE_messages_or_error_counterexample:
  "\<not> messages_then_completion
       (fetchSSE sse_parser True
          (Inr \<lparr>status = 429, json_result = Inl SyntaxError, body = None\<rparr>))
   \<and> \<not> exactly_one_onError
       (fetchSSE sse_parser True
          (Inr \<lparr>status = 429, json_result = Inl SyntaxError, body = None\<rparr>))"
  by (simp add: fetchSSE_def messages_then_completion_def exactly_one_onError_def)

theorem fetchSSE_messages_or_error_witness:
  "snd (fetchSSE sse_parser True
          (Inr \<lparr>status = 200, json_result = Inl SyntaxError,
                body = Some [Chunk (ascii_bytes ''data: hi'' @ [0x0A, 0x0A])]\<rparr>)) = Inr ()
   \<and> messages_then_completion (fetchSSE sse_parser True
          (Inr \<lparr>status = 200, json_result = Inl SyntaxError,
                body = Some [Chunk (ascii_bytes ''data: hi'' @ [0x0A, 0x0A])]\<rparr>))
   \<and> \<not> exactly_one_onError (fetchSSE sse_parser True
          (Inr \<lparr>status = 200, json_result = Inl SyntaxError,
                body = Some [Chunk (ascii_bytes ''data: hi'' @ [0x0A, 0x0A])]\<rparr>))"
proof -
  have run: "fetchSSE sse_parser True
          (Inr \<lparr>status = 200, json_result = Inl SyntaxError,
                body = Some [Chunk (ascii_bytes ''data: hi'' @ [0x0A, 0x0A])]\<rparr>)
      = ([OnStatusCode 200, GetReader, OnMessage (ascii ''hi''), ReleaseLock], Inr ())"
    by (simp add: fetchSSE_def decode_defs sse_defs)
  from fetchSSE_messages_or_error[of sse_parser True
      "Inr \<lparr>status = 200, json_result = Inl SyntaxError,
                body = Some [Chunk (ascii_bytes ''data: hi'' @ [0x0A, 0x0A])]\<rparr>"]
  show ?thesis unfolding run
    by (simp add: messages_then_completion_def exactly_one_onError_def)
qed

text \<open>
  C3. On a response whose status is not 200 and whose body parses as JSON,
  \<^verbatim>\<open>fetchSSE\<close> calls \<^verbatim>\<open>onError\<close> exactly once, with the parsed value, never calls
  \<^verbatim>\<open>onMessage\<close>, does not acquire a reader on the body, and returns.
\<close>

theorem fetchSSE_error_status:
  assumes "status resp \<noteq> 200" and "json_result resp = Inr j"
  shows "fetchSSE P onStatusCode_given (Inr resp) =
           ((if onStatusCode_given then [OnStatusCode (status resp)] else []) @ [OnError j],
            Inr ())"
  using assms by (simp add: fetchSSE_def)

theorem fetchSSE_error_status_witness:
  "status \<lparr>status = 429,
           json_result = Inr (JObj [(ascii ''error'', JStr (ascii ''rate limited''))]),
           body = Some []\<rparr> \<noteq> 200
   \<and> fetchSSE sse_parser True
       (Inr \<lparr>status = 429,
             json_result = Inr (JObj [(ascii ''error'', JStr (ascii ''rate limited''))]),
             body = Some []\<rparr>)
     = ([OnStatusCode 429, OnError (JObj [(ascii ''error'', JStr (ascii ''rate limited''))])],
        Inr ())"
  using fetchSSE_error_status
    [of "\<lparr>status = 429,
          json_result = Inr (JObj [(ascii ''error'', JStr (ascii ''rate limited''))]),
          body = Some []\<rparr>"
      "JObj [(ascii ''error'', JStr (ascii ''rate limited''))]" sse_parser True]
  by simp

text \<open>
  C4. When the fetcher yields a response and the caller gave \<^verbatim>\<open>onStatusCode\<close>, that
  callback is called exactly once, with the response's status, before every other
  effect, whether the status is 200 or not.
\<close>

theorem fetchSSE_status_first:
  "\<exists>rest. fst (fetchSSE P True (Inr resp)) = OnStatusCode (status resp) # rest
        \<and> filter is_onStatusCode rest = []"
proof (cases "status resp = 200")
  case False
  then show ?thesis by (cases "json_result resp") (simp_all add: fetchSSE_def)
next
  case True
  show ?thesis
  proof (cases "body resp")
    case None
    with True show ?thesis by (simp add: fetchSSE_def)
  next
    case (Some reads)
    from fetchSSE_success_shape[OF True Some, of P True] obtain calls where
      eq: "fst (fetchSSE P True (Inr resp)) =
          [OnStatusCode 200] @ [GetReader] @ calls @ [ReleaseLock]"
      and m: "list_all is_onMessage calls" by auto
    from m have "filter is_onStatusCode calls = []" by (rule only_messages_filter)
    with True eq show ?thesis by simp
  qed
qed

theorem fetchSSE_status_first_witness:
  "fst (fetchSSE sse_parser True
          (Inr \<lparr>status = 503, json_result = Inr JNull, body = None\<rparr>))
     = [OnStatusCode 503, OnError JNull]"
  using fetchSSE_status_first
    [of sse_parser "\<lparr>status = 503, json_result = Inr JNull, body = None\<rparr>"]
  by (simp add: fetchSSE_def)

text \<open>
  C6. An invocation that acquires the body's reader (status 200, a body) releases the
  reader's lock, once and as its last effect, however the read loop ends: by the end of
  the stream, by an error of a read, or by an error of the decoder on a chunk. The
  invocation then ends as the loop did.
\<close>

theorem fetchSSE_releases_lock:
  assumes "status resp = 200" and "body resp = Some reads"
  shows "\<exists>calls. fetchSSE P onStatusCode_given (Inr resp) =
            ((if onStatusCode_given then [OnStatusCode 200] else [])
               @ [GetReader] @ calls @ [ReleaseLock],
             snd (read_loop P (initial P) reads))
          \<and> GetReader \<notin> set calls \<and> ReleaseLock \<notin> set calls"
proof -
  from fetchSSE_success_shape[OF assms, of P onStatusCode_given] obtain calls where
    eq: "fetchSSE P onStatusCode_given (Inr resp) =
        ((if onStatusCode_given then [OnStatusCode 200] else [])
           @ [GetReader] @ calls @ [ReleaseLock],
         snd (read_loop P (initial P) reads))"
    and m: "list_all is_onMessage calls" by blast
  from m have "GetReader \<notin> set calls" "ReleaseLock \<notin> set calls"
    by (rule only_messages_filter)+
  with eq show ?thesis by blast
qed

text \<open>The witness: a decoder that reports one event and then throws, on the second
  chunk of a stream whose third read would fail.\<close>

theorem fetchSSE_releases_lock_witness:
  "status \<lparr>status = 200, json_result = Inl SyntaxError,
           body = Some [Chunk [], Chunk [0x61], ReadError NetworkError]\<rparr> = 200
   \<and> fetchSSE
       \<lparr>initial = (), feed = (\<lambda>st s. if s = [] then ([], Inr ())
                                     else ([ParsedEvent s], Inl TypeError))\<rparr>
       True
       (Inr \<lparr>status = 200, json_result = Inl SyntaxError,
             body = Some [Chunk [], Chunk [0x61], ReadError NetworkError]\<rparr>)
     = ([OnStatusCode 200, GetReader, OnMessage [0x61], ReleaseLock], Inl TypeError)"
  using fetchSSE_releases_lock
    [of "\<lparr>status = 200, json_result = Inl SyntaxError,
          body = Some [Chunk [], Chunk [0x61], ReadError NetworkError]\<rparr>"
      "[Chunk [], Chunk [0x61], ReadError NetworkError]"
      "\<lparr>initial = (), feed = (\<lambda>st s. if s = [] then ([], Inr ())
                                     else ([ParsedEvent s], Inl TypeError))\<rparr>"
      True]
  by (simp add: fetchSSE_def decode_defs)

text \<open>
  C7. On a response whose status is not 200 and whose body does not parse as JSON, the
  invocation fails with the parse error: the error reaches the caller, and
  \<^verbatim>\<open>onError\<close> is not called.
\<close>

theorem fetchSSE_malformed_error_body:
  assumes "status resp \<noteq> 200" and "json_result resp = Inl e"
  shows "fetchSSE P onStatusCode_given (Inr resp) =
           ((if onStatusCode_given then [OnStatusCode (status resp)] else []), Inl e)"
  using assms by (simp add: fetchSSE_def)

theorem fetchSSE_malformed_error_body_witness:
  "status \<lparr>status = 500, json_result = Inl SyntaxError, body = Some []\<rparr> \<noteq> 200
   \<and> fetchSSE sse_parser True
       (Inr \<lparr>status = 500, json_result = Inl SyntaxError, body = Some []\<rparr>)
     = ([OnStatusCode 500], Inl SyntaxError)"
  using fetchSSE_malformed_error_body
    [of "\<lparr>status = 500, json_result = Inl SyntaxError, body = Some []\<rparr>" SyntaxError
      sse_parser True]
  by simp

section \<open>Feeding the decoder chunk by chunk\<close>

text \<open>The modelled decoder reads one code unit at a time, so it meets the contract.\<close>

lemma sse_units_append:
  "sse_units st (a @ b) =
     (case sse_units st a of (evs1, st1) \<Rightarrow>
        (case sse_units st1 b of (evs2, st2) \<Rightarrow> (evs1 @ evs2, st2)))"
  by (induction a arbitrary: st) (simp_all split: prod.splits)

lemma sse_parser_buffers: "buffers_partial_lines sse_parser"
  by (simp add: buffers_partial_lines_def sse_parser_def feed_twice_def sse_units_append
      split: prod.splits)

text \<open>
  With a decoder that buffers partial lines, the loop over a stream that delivers the
  chunks \<open>cs\<close> does what one call of \<^verbatim>\<open>feed\<close> does on the chunks' texts put
  together: the same events reach the callback, in the same order, each once.
\<close>

lemma read_loop_chunks:
  assumes "buffers_partial_lines P"
  shows "read_loop P st (map Chunk cs) =
           (case feed P st (concat (map TextDecoder_decode cs)) of
              (evs, r) \<Rightarrow> (concat (map on_parse evs),
                             case r of Inl e \<Rightarrow> Inl e | Inr st' \<Rightarrow> Inr ()))"
proof (induction cs arbitrary: st)
  case Nil
  from assms have "feed P st [] = ([], Inr st)"
    by (simp add: buffers_partial_lines_def)
  then show ?case by simp
next
  case (Cons c cs)
  let ?rest = "concat (map TextDecoder_decode cs)"
  from assms have two: "feed P st (TextDecoder_decode c @ ?rest) =
      feed_twice P st (TextDecoder_decode c) ?rest"
    by (simp add: buffers_partial_lines_def)
  obtain evs1 r1 where f1: "feed P st (TextDecoder_decode c) = (evs1, r1)"
    by (cases "feed P st (TextDecoder_decode c)")
  show ?case
  proof (cases r1)
    case (Inl e)
    with f1 two show ?thesis by (simp add: feed_twice_def)
  next
    case (Inr st1)
    obtain evs2 r2 where f2: "feed P st1 ?rest = (evs2, r2)"
      by (cases "feed P st1 ?rest")
    from Cons.IH[of st1] f2
    have "read_loop P st1 (map Chunk cs) =
        (concat (map on_parse evs2), case r2 of Inl e \<Rightarrow> Inl e | Inr st' \<Rightarrow> Inr ())"
      by simp
    with f1 Inr f2 two show ?thesis by (simp add: feed_twice_def)
  qed
qed

text \<open>An unfinished line produces no event; it waits in the state.\<close>

lemma sse_units_no_eol_events:
  "list_all not_eol t \<Longrightarrow> fst (sse_units st t) = []"
proof (induction t arbitrary: st)
  case Nil
  show ?case by simp
next
  case (Cons c t)
  then have "not_eol c" and t: "list_all not_eol t" by simp_all
  then have c: "c \<noteq> 0x0A" "c \<noteq> 0x0D" by (simp_all add: not_eol_def)
  obtain evs1 st1 where u: "sse_unit st c = (evs1, st1)"
    by (cases "sse_unit st c")
  from c have "fst (sse_unit st c) = []"
    by (simp add: sse_unit_def)
  with u have e1: "evs1 = []" by simp
  obtain evs2 st2 where v: "sse_units st1 t = (evs2, st2)"
    by (cases "sse_units st1 t")
  with Cons.IH[OF t, of st1] have e2: "evs2 = []" by simp
  from u v e1 e2 show ?case by simp
qed

lemma sse_units_line:
  assumes "list_all not_eol t" and "\<not> at_start st" and "\<not> after_cr st"
  shows "sse_units st t = ([], st\<lparr>line := line st @ t\<rparr>)"
  using assms
proof (induction t arbitrary: st)
  case Nil
  show ?case by simp
next
  case (Cons c t)
  then have "not_eol c" and t: "list_all not_eol t" by simp_all
  then have c: "c \<noteq> 0x0A" "c \<noteq> 0x0D" by (simp_all add: not_eol_def)
  let ?st1 = "st\<lparr>line := line st @ [c]\<rparr>"
  from c Cons.prems have s1: "sse_unit st c = ([], ?st1)"
    by (simp add: sse_unit_def)
  from Cons.prems have "\<not> at_start ?st1" "\<not> after_cr ?st1" by simp_all
  from Cons.IH[OF t this] s1 show ?case by simp
qed

lemma split_field_data: "split_field (ascii ''data: '' @ p) = (ascii ''data'', p)"
  by (simp add: split_field_def ascii_def)

lemma ascii_data_no_eol: "list_all not_eol (ascii ''data: '')"
  by (simp add: ascii_def not_eol_def)

lemma sse_units_event:
  assumes "list_all not_eol p" and "line st = []" and "data_buffer st = []" and "\<not> after_cr st"
  shows "sse_units st (event_text p) = ([ParsedEvent p], st\<lparr>at_start := False\<rparr>)"
proof -
  let ?st1 = "st\<lparr>at_start := False, after_cr := False, line := [0x64]\<rparr>"
  have u1: "sse_unit st 0x64 = ([], ?st1)"
    using assms by (simp add: sse_unit_def)
  have rest_ok: "list_all not_eol (ascii ''ata: '' @ p)"
    using assms(1) by (simp add: ascii_def not_eol_def)
  let ?st2 = "st\<lparr>at_start := False, after_cr := False, line := ascii ''data: '' @ p\<rparr>"
  have "sse_units ?st1 (ascii ''ata: '' @ p) = ([], ?st1\<lparr>line := line ?st1 @ ascii ''ata: '' @ p\<rparr>)"
    by (rule sse_units_line[OF rest_ok]) simp_all
  then have u2: "sse_units ?st1 (ascii ''ata: '' @ p) = ([], ?st2)"
    by (simp add: ascii_def)
  have l: "sse_units st (ascii ''data: '' @ p) = ([], ?st2)"
    using u1 u2 by (simp add: ascii_def)
  let ?st3 = "st\<lparr>at_start := False, after_cr := False, line := [], data_buffer := p @ [0x0A]\<rparr>"
  have ne: "ascii ''data: '' \<noteq> []" by (simp add: ascii_def)
  have e1: "sse_unit ?st2 0x0A = ([], ?st3)"
    using assms ne by (simp add: sse_unit_def end_of_line_def Let_def split_field_data)
  let ?st4 = "st\<lparr>at_start := False, after_cr := False, line := [], data_buffer := []\<rparr>"
  have e2: "sse_unit ?st3 0x0A = ([ParsedEvent p], ?st4)"
    by (simp add: sse_unit_def end_of_line_def Let_def)
  have st4: "?st4 = st\<lparr>at_start := False\<rparr>"
    using assms by simp
  have "sse_units st ((ascii ''data: '' @ p) @ [0x0A, 0x0A]) = ([ParsedEvent p], ?st4)"
    using sse_units_append[of st "ascii ''data: '' @ p" "[0x0A, 0x0A]"] l e1 e2 by simp
  then show ?thesis by (simp add: event_text_def st4)
qed

lemma sse_units_events:
  assumes "list_all (list_all not_eol) ps" and "line st = []" and "data_buffer st = []"
    and "\<not> after_cr st"
  shows "\<exists>st'. sse_units st (concat (map event_text ps)) = (map ParsedEvent ps, st')
           \<and> line st' = [] \<and> data_buffer st' = [] \<and> \<not> after_cr st'"
  using assms
proof (induction ps arbitrary: st)
  case Nil
  then show ?case by simp
next
  case (Cons p ps)
  then have p: "list_all not_eol p" and ps: "list_all (list_all not_eol) ps" by simp_all
  let ?st1 = "st\<lparr>at_start := False\<rparr>"
  have one: "sse_units st (event_text p) = ([ParsedEvent p], ?st1)"
    using p Cons.prems(2-4) by (rule sse_units_event)
  from Cons.prems have "line ?st1 = []" "data_buffer ?st1 = []" "\<not> after_cr ?st1" by simp_all
  from Cons.IH[OF ps this] obtain st' where
    "sse_units ?st1 (concat (map event_text ps)) = (map ParsedEvent ps, st')"
    "line st' = []" "data_buffer st' = []" "\<not> after_cr st'" by blast
  with one show ?case by (simp add: sse_units_append)
qed

lemma on_parse_events: "concat (map (on_parse \<circ> ParsedEvent) ps) = map OnMessage ps"
  by (induction ps) simp_all

text \<open>
  The line buffering alone: when the texts that the chunks decode to, one by one, spell
  the events with payloads \<open>ps\<close> followed by an unfinished line \<open>tail\<close>,
  \<^verbatim>\<open>onMessage\<close> is called once for each of \<open>ps\<close>, in order, and the unfinished line
  is not delivered. This is about the texts the loop feeds, not yet about the bytes of
  the stream.
\<close>

lemma fetchSSE_event_texts:
  assumes "concat (map TextDecoder_decode cs) = concat (map event_text ps) @ tail"
    and "list_all (list_all not_eol) ps" and "list_all not_eol tail"
  shows "fetchSSE sse_parser True
           (Inr \<lparr>status = 200, json_result = j, body = Some (map Chunk cs)\<rparr>) =
         (OnStatusCode 200 # GetReader # map OnMessage ps @ [ReleaseLock], Inr ())"
proof -
  have init: "line sse_init = []" "data_buffer sse_init = []" "\<not> after_cr sse_init"
    by (simp_all add: sse_init_def)
  from sse_units_events[OF assms(2) init] obtain st1 where
    evs: "sse_units sse_init (concat (map event_text ps)) = (map ParsedEvent ps, st1)"
    by blast
  obtain evs2 st2 where tl: "sse_units st1 tail = (evs2, st2)"
    by (cases "sse_units st1 tail")
  from sse_units_no_eol_events[OF assms(3), of st1] tl have "evs2 = []" by simp
  with evs tl have whole: "sse_units sse_init (concat (map event_text ps) @ tail) =
      (map ParsedEvent ps, st2)"
    by (simp add: sse_units_append)
  have "read_loop sse_parser sse_init (map Chunk cs) = (map OnMessage ps, Inr ())"
    unfolding read_loop_chunks[OF sse_parser_buffers] assms(1)
    using whole by (simp add: sse_parser_def on_parse_events)
  then show ?thesis
    by (simp add: fetchSSE_def sse_parser_def)
qed

text \<open>The specification's example, and the same stream cut off after its first chunk.\<close>

lemma fetchSSE_hello_example:
  "concat (map TextDecoder_decode
       [ascii_bytes ''data: hel'', ascii_bytes ''lo'' @ [0x0A, 0x0A]])
     = concat (map event_text [ascii ''hello'']) @ []
   \<and> list_all (list_all not_eol) [ascii ''hello'']
   \<and> fetchSSE sse_parser True
       (Inr \<lparr>status = 200, json_result = Inl SyntaxError,
             body = Some (map Chunk
               [ascii_bytes ''data: hel'', ascii_bytes ''lo'' @ [0x0A, 0x0A]])\<rparr>)
     = ([OnStatusCode 200, GetReader, OnMessage (ascii ''hello''), ReleaseLock], Inr ())
   \<and> concat (map TextDecoder_decode [ascii_bytes ''data: hel''])
     = concat (map event_text []) @ ascii ''data: hel''
   \<and> list_all not_eol (ascii ''data: hel'')
   \<and> fetchSSE sse_parser True
       (Inr \<lparr>status = 200, json_result = Inl SyntaxError,
             body = Some (map Chunk [ascii_bytes ''data: hel''])\<rparr>)
     = ([OnStatusCode 200, GetReader, ReleaseLock], Inr ())"
proof -
  have h1: "concat (map TextDecoder_decode
       [ascii_bytes ''data: hel'', ascii_bytes ''lo'' @ [0x0A, 0x0A]])
     = concat (map event_text [ascii ''hello'']) @ []"
    by (simp add: decode_defs event_text_def)
  have h2: "list_all (list_all not_eol) [ascii ''hello'']"
    by (simp add: ascii_def not_eol_def)
  have h3: "list_all not_eol []" by simp
  have k1: "concat (map TextDecoder_decode [ascii_bytes ''data: hel''])
     = concat (map event_text []) @ ascii ''data: hel''"
    by (simp add: decode_defs)
  have k2: "list_all (list_all not_eol) []" by simp
  have k3: "list_all not_eol (ascii ''data: hel'')"
    by (simp add: ascii_def not_eol_def)
  from fetchSSE_event_texts[OF h1 h2 h3, of "Inl SyntaxError"]
    fetchSSE_event_texts[OF k1 k2 k3, of "Inl SyntaxError"]
    h1 h2 k1 k3
  show ?thesis by simp
qed

section \<open>Chunk boundaries and characters\<close>

text \<open>
  \<^verbatim>\<open>new TextDecoder().decode(value)\<close> makes a decoder for each chunk and ends its input
  with the chunk. Where a chunk ends between characters this is the decoding of the
  stream.
\<close>

lemma utf8_run_append:
  "utf8_run st (a @ b) =
     (case utf8_run st a of (out1, st1) \<Rightarrow>
        (case utf8_run st1 b of (out2, st2) \<Rightarrow> (out1 @ out2, st2)))"
  by (induction a arbitrary: st) (simp_all split: prod.splits)

lemma utf8_run_whole_chunks:
  "list_all whole_characters cs \<Longrightarrow>
     utf8_run utf8_init (concat cs) =
       (concat (map (\<lambda>c. fst (utf8_run utf8_init c)) cs), utf8_init)"
proof (induction cs)
  case Nil
  show ?case by simp
next
  case (Cons c cs)
  then have "whole_characters c" and cs: "list_all whole_characters cs" by simp_all
  then have c: "snd (utf8_run utf8_init c) = utf8_init" by (simp add: whole_characters_def)
  obtain out where "utf8_run utf8_init c = (out, utf8_init)"
    using c by (cases "utf8_run utf8_init c") simp
  with Cons.IH[OF cs] show ?case by (simp add: utf8_run_append)
qed

lemma strip_bom_concat:
  "list_all (\<lambda>x. take 1 x \<noteq> [0xFEFF]) xs \<Longrightarrow> strip_bom (concat xs) = concat xs"
proof (induction xs)
  case Nil
  show ?case by (simp add: strip_bom_def)
next
  case (Cons x xs)
  show ?case
  proof (cases x)
    case Nil
    with Cons show ?thesis by simp
  next
    case (Cons y ys)
    with Cons.prems show ?thesis by (simp add: strip_bom_def)
  qed
qed

lemma utf8_init_needed: "bytes_needed utf8_init = 0"
  by (simp add: utf8_init_def)

lemma TextDecoder_decode_whole:
  assumes "whole_characters c"
  shows "TextDecoder_decode c = concat (map utf16_units (fst (utf8_run utf8_init c)))"
proof -
  obtain out where r: "utf8_run utf8_init c = (out, utf8_init)" and nb: "take 1 out \<noteq> [0xFEFF]"
    using assms by (cases "utf8_run utf8_init c") (simp add: whole_characters_def)
  from nb have "strip_bom out = out" by (cases out) (simp_all add: strip_bom_def)
  with r show ?thesis
    by (simp add: TextDecoder_decode_def utf8_decode_def utf8_init_needed)
qed

lemma TextDecoder_decode_whole_chunks:
  assumes "list_all whole_characters cs"
  shows "TextDecoder_decode (concat cs) = concat (map TextDecoder_decode cs)"
proof -
  let ?outs = "map (\<lambda>c. fst (utf8_run utf8_init c)) cs"
  from assms have "list_all (\<lambda>x. take 1 x \<noteq> [0xFEFF]) ?outs"
    by (induction cs) (simp_all add: whole_characters_def)
  then have sb: "strip_bom (concat ?outs) = concat ?outs" by (rule strip_bom_concat)
  have "TextDecoder_decode (concat cs) = concat (map utf16_units (concat ?outs))"
    using utf8_run_whole_chunks[OF assms] sb
    by (simp add: TextDecoder_decode_def utf8_decode_def utf8_init_needed)
  also have "\<dots> = concat (map TextDecoder_decode cs)"
    using assms
  proof (induction cs)
    case Nil
    show ?case by simp
  next
    case (Cons c cs)
    then show ?case by (simp add: TextDecoder_decode_whole)
  qed
  finally show ?thesis .
qed

text \<open>
  What does hold of chunking: two ways of splitting one byte stream into chunks of whole
  characters give the same effects and the same end, with any decoder that buffers
  partial lines.
\<close>

lemma fetchSSE_chunking_whole_characters:
  assumes "buffers_partial_lines P" and "concat cs1 = concat cs2"
    and "list_all whole_characters cs1" and "list_all whole_characters cs2"
  shows "fetchSSE P g (Inr \<lparr>status = 200, json_result = j, body = Some (map Chunk cs1)\<rparr>) =
         fetchSSE P g (Inr \<lparr>status = 200, json_result = j, body = Some (map Chunk cs2)\<rparr>)"
proof -
  have "concat (map TextDecoder_decode cs1) = concat (map TextDecoder_decode cs2)"
    using assms(2-4) by (simp add: TextDecoder_decode_whole_chunks[symmetric])
  then have "read_loop P (initial P) (map Chunk cs1) = read_loop P (initial P) (map Chunk cs2)"
    by (simp add: read_loop_chunks[OF assms(1)])
  then show ?thesis by (simp add: fetchSSE_def)
qed

text \<open>
  Over the bytes of the stream: when the stream as a whole decodes to the events with
  payloads \<open>ps\<close> followed by an unfinished line, and it arrives in chunks of whole
  characters, each event is delivered once, complete and in order.
\<close>

lemma fetchSSE_whole_character_events:
  assumes "list_all whole_characters cs"
    and "TextDecoder_decode (concat cs) = concat (map event_text ps) @ tail"
    and "list_all (list_all not_eol) ps" and "list_all not_eol tail"
  shows "fetchSSE sse_parser True
           (Inr \<lparr>status = 200, json_result = j, body = Some (map Chunk cs)\<rparr>) =
         (OnStatusCode 200 # GetReader # map OnMessage ps @ [ReleaseLock], Inr ())"
proof -
  have "concat (map TextDecoder_decode cs) = concat (map event_text ps) @ tail"
    using assms(1,2) by (simp add: TextDecoder_decode_whole_chunks)
  then show ?thesis using assms(3,4) by (rule fetchSSE_event_texts)
qed

text \<open>
  C5. The specification asks that an event whose payload spans two chunks end in exactly
  one call of \<^verbatim>\<open>onMessage\<close>, carrying the complete payload. The code calls
  \<^verbatim>\<open>onMessage\<close> once, but not always with the payload: the event \<^verbatim>\<open>data: caf\<close>
  followed by U+00E9 (the bytes C3 A9) and a blank line delivers the four characters of
  the payload when it comes as one chunk, and \<^verbatim>\<open>caf\<close> followed by two replacement
  characters U+FFFD when the payload is split between the bytes C3 and A9. The cause is
  the decoder made anew for every chunk, as in C1.
\<close>

theorem fetchSSE_payload_split_inside_character:
  "fetchSSE sse_parser True
     (Inr \<lparr>status = 200, json_result = Inl SyntaxError,
           body = Some [Chunk (ascii_bytes ''data: caf'' @ [0xC3, 0xA9, 0x0A, 0x0A])]\<rparr>)
     = ([OnStatusCode 200, GetReader, OnMessage (ascii ''caf'' @ [0xE9]), ReleaseLock],
        Inr ())
   \<and> fetchSSE sse_parser True
     (Inr \<lparr>status = 200, json_result = Inl SyntaxError,
           body = Some [Chunk (ascii_bytes ''data: caf'' @ [0xC3]),
                        Chunk [0xA9, 0x0A, 0x0A]]\<rparr>)
     = ([OnStatusCode 200, GetReader, OnMessage (ascii ''caf'' @ [0xFFFD, 0xFFFD]),
         ReleaseLock], Inr ())"
  by (simp add: fetchSSE_def decode_defs sse_defs)

text \<open>
  The same decoder per chunk drops a U+FEFF (the bytes EF BB BF) that happens to start a
  chunk, though it is not at the start of the stream.
\<close>

lemma fetchSSE_split_before_bom:
  "fetchSSE sse_parser True
     (Inr \<lparr>status = 200, json_result = Inl SyntaxError,
           body = Some [Chunk (ascii_bytes ''data: a'' @ [0xEF, 0xBB, 0xBF, 0x62, 0x0A, 0x0A])]\<rparr>)
     = ([OnStatusCode 200, GetReader, OnMessage [0x61, 0xFEFF, 0x62], ReleaseLock], Inr ())
   \<and> fetchSSE sse_parser True
     (Inr \<lparr>status = 200, json_result = Inl SyntaxError,
           body = Some [Chunk (ascii_bytes ''data: a''),
                        Chunk [0xEF, 0xBB, 0xBF, 0x62, 0x0A, 0x0A]]\<rparr>)
     = ([OnStatusCode 200, GetReader, OnMessage [0x61, 0x62], ReleaseLock], Inr ())"
  by (simp add: fetchSSE_def decode_defs sse_defs)

text \<open>
  C1. The specification asks that the \<^verbatim>\<open>onMessage\<close> data be the same however the
  byte stream is split into chunks, also when a boundary falls inside a multi-byte
  character. The code does not achieve this: the stream \<^verbatim>\<open>data: \<close>, U+4F60 (the bytes
  E4 BD A0) and a blank line delivers the character when it comes as one chunk, and
  three replacement characters U+FFFD when the first chunk ends after the byte E4.
\<close>

theorem fetchSSE_split_character:
  "fetchSSE sse_parser True
     (Inr \<lparr>status = 200, json_result = Inl SyntaxError,
           body = Some [Chunk (ascii_bytes ''data: '' @ [0xE4, 0xBD, 0xA0, 0x0A, 0x0A])]\<rparr>)
     = ([OnStatusCode 200, GetReader, OnMessage [0x4F60], ReleaseLock], Inr ())
   \<and> fetchSSE sse_parser True
     (Inr \<lparr>status = 200, json_result = Inl SyntaxError,
           body = Some [Chunk (ascii_bytes ''data: '' @ [0xE4]),
                        Chunk [0xBD, 0xA0, 0x0A, 0x0A]]\<rparr>)
     = ([OnStatusCode 200, GetReader, OnMessage [0xFFFD, 0xFFFD, 0xFFFD], ReleaseLock], Inr ())"
  by (simp add: fetchSSE_def decode_defs sse_defs)

end
